theory Spec2Isabelle
  imports Complex_Main
begin

section \<open>Strings as the provider client reads them\<close>

text \<open>
  The provider answers in plain text. The client inspects an answer with Python's
  substring test (\<^verbatim>\<open>"ACCESS_NUMBER" in data\<close>) and cuts it with
  \<^verbatim>\<open>data.split(':')\<close>. Both are modelled on \<^typ>\<open>string\<close>.
\<close>

fun starts_with :: "string \<Rightarrow> string \<Rightarrow> bool" where
  "starts_with [] s = True"
| "starts_with (p # ps) [] = False"
| "starts_with (p # ps) (c # cs) = (p = c \<and> starts_with ps cs)"

text \<open>\<^verbatim>\<open>sub in s\<close>: \<open>sub\<close> occurs in \<open>s\<close> as a contiguous block.\<close>

fun contains :: "string \<Rightarrow> string \<Rightarrow> bool" where
  "contains sub [] = (sub = [])"
| "contains sub (c # cs) = (starts_with sub (c # cs) \<or> contains sub cs)"

text \<open>
  \<^verbatim>\<open>s.split(sep)\<close> for a one-character separator: the result is never empty, and
  an empty string gives one empty part.
\<close>

fun str_split :: "char \<Rightarrow> string \<Rightarrow> string list" where
  "str_split sep [] = [[]]"
| "str_split sep (c # cs) =
     (if c = sep then [] # str_split sep cs
      else (case str_split sep cs of [] \<Rightarrow> [[c]] | p # ps \<Rightarrow> (c # p) # ps))"

section \<open>The verification provider client (phone\_verification.py)\<close>

text \<open>
  One HTTP request to the provider either yields the text of the response or raises
  \<^verbatim>\<open>requests.RequestException\<close>. The provider is external, so a run of the client is
  taken against a script: the list of outcomes of its successive requests. A loop that
  needs more outcomes than the script holds has not returned within the script, which is
  the value \<open>None\<close>.
\<close>

datatype reply = Text string | RequestException

datatype exn =
  UnboundLocalError | IndexError | TypeError | ValueError | RuntimeError
  | NoSuchElementException | WebDriverException

text \<open>The two mutable fields of \<^verbatim>\<open>PhoneVerificationManager\<close>; \<open>None\<close> is Python's None.\<close>

record client =
  current_activation_id :: "string option"
  current_number :: "string option"

text \<open>Python truthiness of a value that is None or a string.\<close>

definition truthy :: "string option \<Rightarrow> bool" where
  "truthy v = (case v of None \<Rightarrow> False | Some s \<Rightarrow> s \<noteq> [])"

definition REQUEST_MAX_TRY :: int where
  "REQUEST_MAX_TRY = 10"

text \<open>\<^verbatim>\<open>if max_attempts is None: max_attempts = Config.REQUEST_MAX_TRY\<close>\<close>

definition default_max_attempts :: "int option \<Rightarrow> int" where
  "default_max_attempts m = (case m of None \<Rightarrow> REQUEST_MAX_TRY | Some n \<Rightarrow> n)"

text \<open>
  The loop of \<^verbatim>\<open>get_phone_number\<close>. Besides the returned pair and the client it gives
  the number of requests made and the arguments of the \<^verbatim>\<open>time.sleep\<close> calls, in order.
\<close>

fun get_phone_number_loop ::
  "int \<Rightarrow> int \<Rightarrow> client \<Rightarrow> reply list \<Rightarrow> nat \<Rightarrow> nat list
    \<Rightarrow> ((bool \<times> string option) \<times> client \<times> nat \<times> nat list) option" where
  "get_phone_number_loop attempt max_attempts st [] calls sleeps =
     (if attempt < max_attempts then None
      else Some ((False, None), st, calls, sleeps))"
| "get_phone_number_loop attempt max_attempts st (r # rs) calls sleeps =
     (if attempt < max_attempts then
        (case r of
           Text data \<Rightarrow>
             if contains ''ACCESS_NUMBER'' data then
               (let parts = str_split CHR '':'' data in
                if length parts \<ge> 3 then
                  Some ((True, Some (CHR ''+'' # parts ! 2)),
                        st\<lparr>current_activation_id := Some (parts ! 1),
                           current_number := Some (parts ! 2)\<rparr>,
                        calls + 1, sleeps)
                else get_phone_number_loop (attempt + 1) max_attempts st rs
                       (calls + 1) (sleeps @ [3]))
             else if contains ''NO_NUMBERS'' data then
               get_phone_number_loop (attempt + 1) max_attempts st rs
                 (calls + 1) (sleeps @ [2, 3])
             else if contains ''NO_BALANCE'' data then
               Some ((False, Some ''Insufficient balance in SMS-Activate account''),
                     st, calls + 1, sleeps)
             else if contains ''BAD_KEY'' data then
               Some ((False, Some ''Invalid API key''), st, calls + 1, sleeps)
             else get_phone_number_loop (attempt + 1) max_attempts st rs
                    (calls + 1) (sleeps @ [3])
         | RequestException \<Rightarrow>
             get_phone_number_loop (attempt + 1) max_attempts st rs
               (calls + 1) (sleeps @ [3]))
      else Some ((False, None), st, calls, sleeps))"

definition get_phone_number ::
  "client \<Rightarrow> int option \<Rightarrow> reply list
    \<Rightarrow> ((bool \<times> string option) \<times> client \<times> nat \<times> nat list) option" where
  "get_phone_number st max_attempts rs =
     get_phone_number_loop 0 (default_max_attempts max_attempts) st rs 0 []"

text \<open>
  The loop of \<^verbatim>\<open>get_verification_code\<close>. The variable \<^verbatim>\<open>data\<close> is assigned inside
  the \<^verbatim>\<open>try\<close> and read after it, so the model carries it from one iteration to the
  next: \<open>None\<close> while it is unbound, and the text of the last response received
  otherwise. Reading it unbound raises \<^verbatim>\<open>UnboundLocalError\<close>, which the
  \<^verbatim>\<open>except requests.RequestException\<close> clause does not catch. The result comes with
  the number of requests made; the sleep of \<^verbatim>\<open>polling_interval\<close> seconds between two
  polls changes no result and is left out.
\<close>

definition after_poll :: "int \<Rightarrow> string \<Rightarrow> int" where
  "after_poll attempt data =
     (if contains ''STATUS_WAIT_CODE'' data then attempt - 1 else attempt)"

fun get_verification_code_loop ::
  "int \<Rightarrow> int \<Rightarrow> string option \<Rightarrow> reply list \<Rightarrow> nat
    \<Rightarrow> ((exn + bool \<times> string option) \<times> nat) option" where
  "get_verification_code_loop attempt max_attempts data [] calls =
     (if attempt < max_attempts then None else Some (Inr (False, None), calls))"
| "get_verification_code_loop attempt max_attempts data (r # rs) calls =
     (if attempt < max_attempts then
        (case r of
           Text d \<Rightarrow>
             if contains ''STATUS_OK'' d then
               (let parts = str_split CHR '':'' d in
                if length parts \<ge> 2 then Some (Inr (True, Some (parts ! 1)), calls + 1)
                else get_verification_code_loop (after_poll (attempt + 1) d) max_attempts
                       (Some d) rs (calls + 1))
             else if contains ''STATUS_WAIT_CODE'' d then
               get_verification_code_loop (after_poll (attempt + 1) d) max_attempts
                 (Some d) rs (calls + 1)
             else if contains ''STATUS_CANCEL'' d then
               Some (Inr (False, Some ''Activation cancelled''), calls + 1)
             else get_verification_code_loop (after_poll (attempt + 1) d) max_attempts
                    (Some d) rs (calls + 1)
         | RequestException \<Rightarrow>
             (case data of
                None \<Rightarrow> Some (Inl UnboundLocalError, calls + 1)
              | Some d \<Rightarrow>
                  get_verification_code_loop (after_poll (attempt + 1) d) max_attempts
                    (Some d) rs (calls + 1)))
      else Some (Inr (False, None), calls))"

definition get_verification_code ::
  "client \<Rightarrow> int option \<Rightarrow> reply list \<Rightarrow> ((exn + bool \<times> string option) \<times> nat) option" where
  "get_verification_code st max_attempts rs =
     (if \<not> truthy (current_activation_id st) then
        Some (Inr (False, Some ''No active phone number''), 0)
      else get_verification_code_loop 0 (default_max_attempts max_attempts) None rs 0)"

text \<open>
  \<^verbatim>\<open>cancel_current_activation\<close> and \<^verbatim>\<open>report_success\<close> make at most one request;
  \<open>r\<close> is its outcome. The result is the returned boolean, the client afterwards and
  the number of requests made.
\<close>

definition cancel_current_activation :: "client \<Rightarrow> reply \<Rightarrow> bool \<times> client \<times> nat" where
  "cancel_current_activation st r =
     (if \<not> truthy (current_activation_id st) then (True, st, 0)
      else
        (case r of
           Text data \<Rightarrow>
             if contains ''ACCESS_CANCEL'' data \<or> contains ''ACCESS_ACTIVATION_CANCEL'' data
             then (True, st\<lparr>current_activation_id := None, current_number := None\<rparr>, 1)
             else (False, st, 1)
         | RequestException \<Rightarrow> (False, st, 1)))"

definition report_success :: "client \<Rightarrow> reply \<Rightarrow> bool \<times> client \<times> nat" where
  "report_success st r =
     (if \<not> truthy (current_activation_id st) then (False, st, 0)
      else
        (case r of
           Text data \<Rightarrow>
             if contains ''ACCESS_ACTIVATION_SUCCESS'' data
             then (True, st\<lparr>current_activation_id := None, current_number := None\<rparr>, 1)
             else (False, st, 1)
         | RequestException \<Rightarrow> (False, st, 1)))"

text \<open>
  \<^verbatim>\<open>check_balance\<close>. Python's \<^verbatim>\<open>float\<close> is a parameter: \<open>to_float s\<close> is \<open>None\<close>
  where \<^verbatim>\<open>float(s)\<close> raises \<^verbatim>\<open>ValueError\<close>. The handler catches
  \<^verbatim>\<open>RequestException\<close> and \<^verbatim>\<open>ValueError\<close> and nothing else, so the
  \<^verbatim>\<open>IndexError\<close> of \<^verbatim>\<open>data.split(':')[1]\<close> leaves the function.
\<close>

definition check_balance :: "(string \<Rightarrow> 'f option) \<Rightarrow> reply \<Rightarrow> exn + 'f option" where
  "check_balance to_float r =
     (case r of
        Text data \<Rightarrow>
          if contains ''ACCESS_BALANCE'' data then
            (let parts = str_split CHR '':'' data in
             if length parts \<le> 1 then Inl IndexError
             else (case to_float (parts ! 1) of
                     None \<Rightarrow> Inr None
                   | Some balance \<Rightarrow> Inr (Some balance)))
          else Inr None
      | RequestException \<Rightarrow> Inr None)"

text \<open>
  Predicates on a scripted outcome, used to state what the polling loop counts:
  \<open>waiting\<close> is the test \<^verbatim>\<open>"STATUS_WAIT_CODE" in data\<close> on a response.
\<close>

definition is_text :: "reply \<Rightarrow> bool" where
  "is_text r = (case r of Text d \<Rightarrow> True | RequestException \<Rightarrow> False)"

definition waiting :: "reply \<Rightarrow> bool" where
  "waiting r =
     (case r of Text d \<Rightarrow> contains ''STATUS_WAIT_CODE'' d | RequestException \<Rightarrow> False)"

definition non_waiting :: "reply list \<Rightarrow> nat" where
  "non_waiting rs = length (filter (\<lambda>r. \<not> waiting r) rs)"



section \<open>The browser as the step executors see it (browser\_manager.py)\<close>

datatype selector =
  ACC_DAY | PHONE_NUMBER | USERNAME | USERNAME_WARNING | USERNAME_SELECT | CODE_FIELD

text \<open>
  What a page answers to \<^verbatim>\<open>wait_for_element\<close>: whether a driver exists, whether the
  explicit wait finds the element in time, and whether the fallback
  \<^verbatim>\<open>find_element\<close> with its scripts succeeds after a timeout.
\<close>

record page =
  driver_ready :: bool
  located :: "selector \<Rightarrow> bool"
  findable :: "selector \<Rightarrow> bool"

definition wait_for_element :: "page \<Rightarrow> selector \<Rightarrow> exn + unit" where
  "wait_for_element p sel =
     (if \<not> driver_ready p then Inl RuntimeError
      else if located p sel then Inr ()
      else if findable p sel then Inr ()
      else Inl NoSuchElementException)"

section \<open>The step executors and the orchestrator (account\_creator.py)\<close>

datatype level = INFO | WARNING | ERROR

text \<open>
  \<^verbatim>\<open>_requires_phone_verification\<close>, with the records it writes to its own logger. Both
  handlers are bare \<^verbatim>\<open>except:\<close> clauses, so every exception of the wait counts as
  "not found".
\<close>

definition requires_phone_verification :: "page \<Rightarrow> bool \<times> (level \<times> string) list" where
  "requires_phone_verification p =
     (case wait_for_element p ACC_DAY of
        Inr _ \<Rightarrow>
          (False, [(INFO, ''Checking if phone verification is required''),
                   (INFO, ''Phone verification not required'')])
      | Inl _ \<Rightarrow>
          (case wait_for_element p PHONE_NUMBER of
             Inr _ \<Rightarrow>
               (True, [(INFO, ''Checking if phone verification is required''),
                       (INFO, ''Phone verification is required'')])
           | Inl _ \<Rightarrow>
               (False, [(INFO, ''Checking if phone verification is required''),
                        (WARNING, ''Could not determine verification requirement'')])))"

text \<open>
  The user data of one attempt. A missing or empty \<^verbatim>\<open>manual_username\<close> is the empty
  string: \<^verbatim>\<open>user_data.get('manual_username')\<close> is falsy for both.
\<close>

record user_data =
  first_name :: string
  last_name :: string
  password :: string
  birthday :: string
  manual_username :: string

text \<open>
  \<^verbatim>\<open>UserManager.generate_username\<close> as the username step calls it (no list of existing
  names). The random number is the argument \<open>digits\<close>. Python's \<^verbatim>\<open>str.lower\<close> and
  \<^verbatim>\<open>str.isalnum\<close> follow the Unicode tables of the interpreter; they are the
  parameters \<open>lower\<close> (on a whole string) and \<open>isalnum\<close> (on one character), and
  nothing is assumed about them.
\<close>

definition digit_char :: "nat \<Rightarrow> char" where
  "digit_char d = ''0123456789'' ! d"

text \<open>\<^verbatim>\<open>str(n)\<close> for a natural number.\<close>

fun str_nat :: "nat \<Rightarrow> string" where
  "str_nat n = (if n < 10 then [digit_char n] else str_nat (n div 10) @ [digit_char (n mod 10)])"

declare str_nat.simps [simp del]

text \<open>Reading a decimal numeral back, to tell two generated usernames apart.\<close>

definition digit_val :: "char \<Rightarrow> nat" where
  "digit_val c = (case map_of (zip ''0123456789'' [0, 1, 2, 3, 4, 5, 6, 7, 8, 9]) c of
                    None \<Rightarrow> 0 | Some d \<Rightarrow> d)"

definition nat_of_str :: "string \<Rightarrow> nat" where
  "nat_of_str s = foldl (\<lambda>acc c. 10 * acc + digit_val c) 0 s"

definition generate_username ::
  "(string \<Rightarrow> string) \<Rightarrow> (char \<Rightarrow> bool) \<Rightarrow> string \<Rightarrow> string \<Rightarrow> nat \<Rightarrow> string" where
  "generate_username lower isalnum fname lname digits =
     filter (\<lambda>c. isalnum c \<or> c = CHR ''.'') (lower fname @ ''.'' @ lower lname)
     @ str_nat digits"

text \<open>
  One pass through \<^verbatim>\<open>_fill_username_step\<close> as the browser answers it: the number
  \<^verbatim>\<open>random.randint\<close> would draw, whether the username field is found and filled,
  whether the next button can be clicked, and whether the rejection indicator is found
  afterwards.
\<close>

record round =
  rand_digits :: nat
  username_field_ok :: bool
  next_button_ok :: bool
  warning_shown :: bool

text \<open>
  \<^verbatim>\<open>_fill_username_step\<close>. The recursive call stands inside the \<^verbatim>\<open>try\<close> whose handler
  is a bare \<^verbatim>\<open>except:\<close>, so an exception of the recursive call is swallowed there and
  the outer username is returned. The second component lists the usernames typed into
  the field, in order. A script with no round left means the step has not returned
  within the script.
\<close>

fun fill_username_step ::
  "(string \<Rightarrow> string) \<Rightarrow> (char \<Rightarrow> bool) \<Rightarrow> user_data \<Rightarrow> round list
    \<Rightarrow> ((exn + string) \<times> string list) option" where
  "fill_username_step lower isalnum ud [] = None"
| "fill_username_step lower isalnum ud (r # rs) =
     (let username =
        (if manual_username ud \<noteq> [] then manual_username ud
         else generate_username lower isalnum (first_name ud) (last_name ud) (rand_digits r))
      in
        if \<not> username_field_ok r then Some (Inl NoSuchElementException, [])
        else if \<not> next_button_ok r then Some (Inl ValueError, [username])
        else if warning_shown r then
          (case fill_username_step lower isalnum (ud\<lparr>manual_username := []\<rparr>) rs of
             None \<Rightarrow> None
           | Some (Inl e, typed) \<Rightarrow> Some (Inr username, username # typed)
           | Some (Inr u, typed) \<Rightarrow> Some (Inr u, username # typed))
        else Some (Inr username, [username]))"

text \<open>The record appended by \<^verbatim>\<open>save_created_account\<close> (the creation date left out).\<close>

record account =
  acc_username :: string
  acc_password :: string
  acc_birthday :: string
  acc_phone_number :: string

text \<open>
  What the attempt meets: Python's \<^verbatim>\<open>str.lower\<close> and \<^verbatim>\<open>str.isalnum\<close>; whether each
  form step runs without raising; the rounds of the username step; the page shown after
  the password step; and the provider's answers to the requests of each action
  (\<^verbatim>\<open>getNumber\<close>, \<^verbatim>\<open>getStatus\<close>, \<^verbatim>\<open>setStatus\<close> with status 8 and with status 6).
\<close>

record attempt_script =
  str_lower :: "string \<Rightarrow> string"
  char_isalnum :: "char \<Rightarrow> bool"
  navigation_ok :: bool
  first_step_ok :: bool
  second_step_ok :: bool
  username_rounds :: "round list"
  password_step_ok :: bool
  verification_page :: page
  number_replies :: "reply list"
  phone_entry_ok :: bool
  status_replies :: "reply list"
  code_entry_ok :: bool
  cancel_reply :: reply
  report_reply :: reply
  final_steps_ok :: bool

text \<open>
  What an attempt does to the provider's leases, in order: the activation id the client
  stores when a number is leased, each cancel request sent (\<^verbatim>\<open>setStatus\<close> with
  status 8) and each success report sent (status 6).
\<close>

datatype lease_event = Leased "string option" | CancelSent | ReportSent

text \<open>
  \<^verbatim>\<open>_handle_phone_verification\<close>: the returned pair or the exception that leaves it,
  the client afterwards, and the lease events. Neither the result of
  \<^verbatim>\<open>cancel_current_activation\<close> nor that of \<^verbatim>\<open>report_success\<close> is looked at.
\<close>

definition handle_phone_verification ::
  "attempt_script \<Rightarrow> client
    \<Rightarrow> ((exn + bool \<times> string) \<times> client \<times> lease_event list) option" where
  "handle_phone_verification s st =
     (case get_phone_number st None (number_replies s) of
        None \<Rightarrow> None
      | Some ((success, number), st1, _, _) \<Rightarrow>
          if \<not> success then Some (Inr (False, []), st1, [])
          else
            (case number of
               None \<Rightarrow> Some (Inl TypeError, st1, [Leased (current_activation_id st1)])
             | Some phone_number \<Rightarrow>
                 if \<not> phone_entry_ok s then
                   Some (Inl WebDriverException, st1, [Leased (current_activation_id st1)])
                 else
                   (case get_verification_code st1 None (status_replies s) of
                      None \<Rightarrow> None
                    | Some (Inl e, _) \<Rightarrow>
                        Some (Inl e, st1, [Leased (current_activation_id st1)])
                    | Some (Inr (success', code), _) \<Rightarrow>
                        if \<not> success' then
                          (case cancel_current_activation st1 (cancel_reply s) of
                             (_, st2, n) \<Rightarrow>
                               Some (Inr (False, phone_number), st2,
                                     Leased (current_activation_id st1)
                                       # replicate n CancelSent))
                        else if \<not> code_entry_ok s then
                          Some (Inl WebDriverException, st1,
                                [Leased (current_activation_id st1)])
                        else
                          (case report_success st1 (report_reply s) of
                             (_, st2, n) \<Rightarrow>
                               Some (Inr (True, phone_number), st2,
                                     Leased (current_activation_id st1)
                                       # replicate n ReportSent)))))"

text \<open>
  The body of the \<^verbatim>\<open>try\<close> in \<^verbatim>\<open>_create_single_account\<close>: its returned boolean or
  the exception raised in it, the client and the saved accounts afterwards, and the
  lease events of the attempt.
\<close>

definition complete_and_save ::
  "user_data \<Rightarrow> attempt_script \<Rightarrow> string \<Rightarrow> string \<Rightarrow> client \<Rightarrow> account list
    \<Rightarrow> lease_event list
    \<Rightarrow> ((exn + bool) \<times> client \<times> account list \<times> lease_event list) option" where
  "complete_and_save ud s username phone_number st saved events =
     (if \<not> final_steps_ok s then Some (Inr False, st, saved, events)
      else Some (Inr True, st,
             saved @ [\<lparr>acc_username = username, acc_password = password ud,
                       acc_birthday = birthday ud, acc_phone_number = phone_number\<rparr>],
             events))"

definition create_single_account_body ::
  "user_data \<Rightarrow> attempt_script \<Rightarrow> client \<Rightarrow> account list
    \<Rightarrow> ((exn + bool) \<times> client \<times> account list \<times> lease_event list) option" where
  "create_single_account_body ud s st saved =
     (if \<not> navigation_ok s then Some (Inl WebDriverException, st, saved, [])
      else if \<not> first_step_ok s then Some (Inl WebDriverException, st, saved, [])
      else if \<not> second_step_ok s then Some (Inl WebDriverException, st, saved, [])
      else
        (case fill_username_step (str_lower s) (char_isalnum s) ud (username_rounds s) of
           None \<Rightarrow> None
         | Some (Inl e, _) \<Rightarrow> Some (Inl e, st, saved, [])
         | Some (Inr username, _) \<Rightarrow>
             if \<not> password_step_ok s then Some (Inl WebDriverException, st, saved, [])
             else if fst (requires_phone_verification (verification_page s)) then
               (case handle_phone_verification s st of
                  None \<Rightarrow> None
                | Some (Inl e, st', events) \<Rightarrow> Some (Inl e, st', saved, events)
                | Some (Inr (success, phone_number), st', events) \<Rightarrow>
                    if \<not> success then Some (Inr False, st', saved, events)
                    else complete_and_save ud s username phone_number st' saved events)
             else complete_and_save ud s username [] st saved []))"

text \<open>
  \<^verbatim>\<open>_create_single_account\<close>: the handler \<^verbatim>\<open>except Exception\<close> turns every exception
  of the body into the result \<^verbatim>\<open>False\<close>, and sends nothing to the provider.
\<close>

definition create_single_account ::
  "user_data \<Rightarrow> attempt_script \<Rightarrow> client \<Rightarrow> account list
    \<Rightarrow> (bool \<times> client \<times> account list \<times> lease_event list) option" where
  "create_single_account ud s st saved =
     (case create_single_account_body ud s st saved of
        None \<Rightarrow> None
      | Some (Inl e, st', saved', events) \<Rightarrow> Some (False, st', saved', events)
      | Some (Inr b, st', saved', events) \<Rightarrow> Some (b, st', saved', events))"

text \<open>
  The state of \<^verbatim>\<open>AccountCreator\<close>: its counters, whether the browser manager holds a
  driver, the phone client, the saved accounts, and the arguments of the
  \<^verbatim>\<open>time.sleep\<close> calls of \<^verbatim>\<open>create_accounts\<close>, in order.
\<close>

record creator =
  current_index :: int
  successful_accounts :: int
  failed_accounts :: int
  driver :: bool
  phone_manager :: client
  created_accounts :: "account list"
  cooldowns :: "real list"

datatype user_data_result = UserDataRaises | UserDataNone | UserData user_data

text \<open>
  What one iteration of the loop of \<^verbatim>\<open>create_accounts\<close> meets: the result of
  \<^verbatim>\<open>get_user_data\<close>, whether \<^verbatim>\<open>initialize_driver\<close> returns, the script of the attempt,
  and the number in \<open>[0, 1]\<close> that \<^verbatim>\<open>random.uniform\<close> scales.
\<close>

record attempt =
  user_data_result :: user_data_result
  driver_init_ok :: bool
  script :: attempt_script
  delay_draw :: real

text \<open>\<^verbatim>\<open>random.uniform(a, b)\<close> is \<^verbatim>\<open>a + (b - a) * random()\<close>.\<close>

definition uniform :: "real \<Rightarrow> real \<Rightarrow> real \<Rightarrow> real" where
  "uniform a b u = a + (b - a) * u"

text \<open>
  The body of the \<^verbatim>\<open>try\<close> in the loop of \<^verbatim>\<open>create_accounts\<close>. Only
  \<^verbatim>\<open>get_user_data\<close> and \<^verbatim>\<open>initialize_driver\<close> can raise in it, and both do so before
  the state has changed.
\<close>

definition attempt_body :: "attempt \<Rightarrow> creator \<Rightarrow> (exn + creator) option" where
  "attempt_body a st =
     (case user_data_result a of
        UserDataRaises \<Rightarrow> Some (Inl IndexError)
      | UserDataNone \<Rightarrow>
          Some (Inr (st\<lparr>failed_accounts := failed_accounts st + 1,
                        current_index := current_index st + 1\<rparr>))
      | UserData ud \<Rightarrow>
          if \<not> driver_init_ok a then Some (Inl WebDriverException)
          else
            (case create_single_account ud (script a) (phone_manager st) (created_accounts st) of
               None \<Rightarrow> None
             | Some (success, pm, saved, _) \<Rightarrow>
                 Some (Inr (st\<lparr>successful_accounts :=
                                 (if success then successful_accounts st + 1
                                  else successful_accounts st),
                               failed_accounts :=
                                 (if success then failed_accounts st
                                  else failed_accounts st + 1),
                               driver := False,
                               current_index := current_index st + 1,
                               phone_manager := pm,
                               created_accounts := saved,
                               cooldowns := cooldowns st @ [uniform 5 15 (delay_draw a)]\<rparr>))))"

text \<open>One iteration: the body, and the handler \<^verbatim>\<open>except Exception\<close> of the loop.\<close>

definition process_attempt :: "attempt \<Rightarrow> creator \<Rightarrow> creator option" where
  "process_attempt a st =
     (case attempt_body a st of
        None \<Rightarrow> None
      | Some (Inr st') \<Rightarrow> Some st'
      | Some (Inl e) \<Rightarrow>
          Some (st\<lparr>failed_accounts := failed_accounts st + 1,
                   current_index := current_index st + 1,
                   driver := False,
                   cooldowns := cooldowns st @ [uniform 10 30 (delay_draw a)]\<rparr>))"

text \<open>
  \<^verbatim>\<open>while self.current_index < user_count\<close>, one scripted attempt per iteration.
\<close>

fun create_accounts_loop :: "int \<Rightarrow> attempt list \<Rightarrow> creator \<Rightarrow> creator option" where
  "create_accounts_loop user_count [] st =
     (if current_index st < user_count then None else Some st)"
| "create_accounts_loop user_count (a # as) st =
     (if current_index st < user_count then
        (case process_attempt a st of
           None \<Rightarrow> None
         | Some st' \<Rightarrow> create_accounts_loop user_count as st')
      else Some st)"

definition create_accounts :: "int \<Rightarrow> attempt list \<Rightarrow> creator \<Rightarrow> (int \<times> creator) option" where
  "create_accounts user_count as st =
     (case create_accounts_loop user_count as st of
        None \<Rightarrow> None
      | Some st' \<Rightarrow> Some (successful_accounts st', st'))"

section \<open>Example data\<close>

text \<open>A user, pages and scripts on which the runs below are evaluated.\<close>

definition jane :: user_data where
  "jane = \<lparr>first_name = ''Jane'', last_name = ''Doe'', password = ''Abc123!@'',
           birthday = ''3/14/1990'', manual_username = []\<rparr>"

definition accepted_round :: round where
  "accepted_round = \<lparr>rand_digits = 12345, username_field_ok = True, next_button_ok = True,
                     warning_shown = False\<rparr>"

text \<open>The page that still shows the day field, and the page that asks for a phone number.\<close>

definition day_page :: page where
  "day_page = \<lparr>driver_ready = True, located = (\<lambda>sel. sel = ACC_DAY),
               findable = (\<lambda>sel. False)\<rparr>"

definition phone_page :: page where
  "phone_page = \<lparr>driver_ready = True, located = (\<lambda>sel. sel = PHONE_NUMBER),
                 findable = (\<lambda>sel. False)\<rparr>"

text \<open>
  The tables of \<^verbatim>\<open>str.lower\<close> and \<^verbatim>\<open>str.isalnum\<close> on the letters and digits of ASCII,
  where they are what Python computes. They serve the examples only, whose names are
  ASCII.
\<close>

definition ascii_lower :: "string \<Rightarrow> string" where
  "ascii_lower =
     map (\<lambda>c. case map_of (zip ''ABCDEFGHIJKLMNOPQRSTUVWXYZ''
                               ''abcdefghijklmnopqrstuvwxyz'') c of
                 None \<Rightarrow> c
               | Some l \<Rightarrow> l)"

definition ascii_isalnum :: "char \<Rightarrow> bool" where
  "ascii_isalnum c \<longleftrightarrow>
     c \<in> set ''abcdefghijklmnopqrstuvwxyzABCDEFGHIJKLMNOPQRSTUVWXYZ0123456789''"

text \<open>An attempt in which every step works and no phone number is asked for.\<close>

definition smooth_script :: attempt_script where
  "smooth_script =
     \<lparr>str_lower = ascii_lower, char_isalnum = ascii_isalnum, navigation_ok = True, first_step_ok = True, second_step_ok = True,
      username_rounds = [accepted_round], password_step_ok = True,
      verification_page = day_page, number_replies = [], phone_entry_ok = True,
      status_replies = [], code_entry_ok = True,
      cancel_reply = Text ''ACCESS_CANCEL'',
      report_reply = Text ''ACCESS_ACTIVATION_SUCCESS'', final_steps_ok = True\<rparr>"

text \<open>
  An attempt in which a phone number is asked for, the provider leases one, answers
  "waiting" once and then sends the code, and every step works.
\<close>

definition phone_script :: attempt_script where
  "phone_script =
     smooth_script
       \<lparr>verification_page := phone_page,
        number_replies := [Text ''ACCESS_NUMBER:42:611234567''],
        status_replies := [Text ''STATUS_WAIT_CODE'', Text ''STATUS_OK:998877'']\<rparr>"


definition no_lease :: client where
  "no_lease = \<lparr>current_activation_id = None, current_number = None\<rparr>"

definition new_creator :: creator where
  "new_creator =
     \<lparr>current_index = 0, successful_accounts = 0, failed_accounts = 0, driver = False,
      phone_manager = no_lease, created_accounts = [], cooldowns = []\<rparr>"

section \<open>Facts about the string operations\<close>

lemma starts_with_iff: "starts_with p s \<longleftrightarrow> (\<exists>q. s = p @ q)"
  by (induction p s rule: starts_with.induct) auto

lemma contains_iff: "contains sub s \<longleftrightarrow> (\<exists>p q. s = p @ sub @ q)"
proof (induction s)
  case Nil
  then show ?case by auto
next
  case (Cons c cs)
  show ?case
  proof
    assume "contains sub (c # cs)"
    then consider "starts_with sub (c # cs)" | "contains sub cs" by auto
    then show "\<exists>p q. c # cs = p @ sub @ q"
    proof cases
      case 1
      then obtain q where "c # cs = sub @ q" by (auto simp: starts_with_iff)
      then have "c # cs = [] @ sub @ q" by simp
      then show ?thesis by blast
    next
      case 2
      then obtain p q where "cs = p @ sub @ q" using Cons.IH by auto
      then have "c # cs = (c # p) @ sub @ q" by simp
      then show ?thesis by blast
    qed
  next
    assume "\<exists>p q. c # cs = p @ sub @ q"
    then obtain p q where pq: "c # cs = p @ sub @ q" by blast
    show "contains sub (c # cs)"
    proof (cases p)
      case Nil
      with pq have "starts_with sub (c # cs)" by (auto simp: starts_with_iff)
      then show ?thesis by simp
    next
      case (Cons a p')
      with pq have "cs = p' @ sub @ q" by simp
      then have "contains sub cs" using Cons.IH by blast
      then show ?thesis by simp
    qed
  qed
qed

lemma str_split_not_Nil: "str_split sep s \<noteq> []"
  by (induction s) (auto split: list.splits)

lemma str_split_no_sep: "sep \<notin> set s \<Longrightarrow> str_split sep s = [s]"
  by (induction s) (auto split: list.splits)

lemma str_split_first:
  "sep \<notin> set a \<Longrightarrow> str_split sep (a @ sep # b) = a # str_split sep b"
  by (induction a) (auto split: list.splits)

section \<open>Leasing a number\<close>





section \<open>The client without a lease\<close>

text \<open>
  Claim C10. With no activation id stored in the client (None, or the empty string,
  which Python also takes for false) nothing is requested from the provider:
  \<^verbatim>\<open>get_verification_code\<close> returns the failure \<^verbatim>\<open>(False, "No active phone number")\<close>,
  \<^verbatim>\<open>cancel_current_activation\<close> returns True and \<^verbatim>\<open>report_success\<close> returns False,
  each with zero requests and the client unchanged, whatever the provider would answer.
\<close>

theorem no_active_lease_short_circuit:
  assumes "\<not> truthy (current_activation_id st)"
  shows "get_verification_code st m rs = Some (Inr (False, Some ''No active phone number''), 0)
       \<and> cancel_current_activation st r = (True, st, 0)
       \<and> report_success st r' = (False, st, 0)"
  using assms
  by (simp add: get_verification_code_def cancel_current_activation_def report_success_def)

theorem no_active_lease_short_circuit_witness:
  "\<not> truthy (current_activation_id \<lparr>current_activation_id = None, current_number = None\<rparr>)
   \<and> get_verification_code \<lparr>current_activation_id = None, current_number = None\<rparr> None
        [Text ''STATUS_OK:998877''] = Some (Inr (False, Some ''No active phone number''), 0)
   \<and> cancel_current_activation \<lparr>current_activation_id = None, current_number = None\<rparr>
        (Text ''ACCESS_CANCEL'') = (True, \<lparr>current_activation_id = None, current_number = None\<rparr>, 0)
   \<and> report_success \<lparr>current_activation_id = None, current_number = None\<rparr>
        (Text ''ACCESS_ACTIVATION_SUCCESS'') =
        (False, \<lparr>current_activation_id = None, current_number = None\<rparr>, 0)"
proof -
  have h: "\<not> truthy (current_activation_id \<lparr>current_activation_id = None, current_number = None\<rparr>)"
    by (simp add: truthy_def)
  from no_active_lease_short_circuit[OF h] show ?thesis using h by simp
qed

section \<open>Parsing the balance\<close>

text \<open>
  Claim C8, at the input where the code leaves it. The response \<^verbatim>\<open>ACCESS_BALANCE\<close>
  with no \<^verbatim>\<open>:<amount>\<close> segment makes \<^verbatim>\<open>check_balance\<close> raise \<^verbatim>\<open>IndexError\<close>
  instead of returning None: \<^verbatim>\<open>split(':')\<close> gives one part and the code reads the
  second.
\<close>

theorem check_balance_missing_amount_raises:
  "check_balance to_float (Text ''ACCESS_BALANCE'') = Inl IndexError"
  by (simp add: check_balance_def)

section \<open>Polling for the code\<close>

text \<open>
  Claim C3, at the inputs where the code leaves it. With a budget of one attempt, a
  request failure that follows a waiting response does not use the attempt up (the
  stale \<^verbatim>\<open>data\<close> still holds \<^verbatim>\<open>STATUS_WAIT_CODE\<close>), so the third poll is made and
  returns the code; an unexpected response in the same place does use it up and the
  loop ends after two polls; and a request failure on the very first poll raises
  \<^verbatim>\<open>UnboundLocalError\<close> out of \<^verbatim>\<open>get_verification_code\<close>.
\<close>

theorem get_verification_code_request_failure_not_counted:
  "get_verification_code \<lparr>current_activation_id = Some ''42'', current_number = Some ''611234567''\<rparr>
     (Some 1) [Text ''STATUS_WAIT_CODE'', RequestException, Text ''STATUS_OK:998877''] =
     Some (Inr (True, Some ''998877''), 3)
   \<and> get_verification_code \<lparr>current_activation_id = Some ''42'', current_number = Some ''611234567''\<rparr>
     (Some 1) [Text ''STATUS_WAIT_CODE'', Text ''ERROR_SQL'', Text ''STATUS_OK:998877''] =
     Some (Inr (False, None), 2)
   \<and> get_verification_code \<lparr>current_activation_id = Some ''42'', current_number = Some ''611234567''\<rparr>
     (Some 1) [RequestException, Text ''STATUS_OK:998877''] =
     Some (Inl UnboundLocalError, 1)"
  by (simp add: get_verification_code_def truthy_def default_max_attempts_def after_poll_def)

lemma get_verification_code_loop_stop:
  "\<not> attempt < m \<Longrightarrow>
   get_verification_code_loop attempt m data rs calls = Some (Inr (False, None), calls)"
  by (cases rs) simp_all

lemma get_verification_code_loop_Text:
  "attempt < m \<Longrightarrow>
   get_verification_code_loop attempt m data (Text d # rs) calls =
     (if contains ''STATUS_OK'' d \<and> 2 \<le> length (str_split CHR '':'' d)
      then Some (Inr (True, Some (str_split CHR '':'' d ! 1)), calls + 1)
      else if \<not> contains ''STATUS_OK'' d \<and> \<not> contains ''STATUS_WAIT_CODE'' d
              \<and> contains ''STATUS_CANCEL'' d
      then Some (Inr (False, Some ''Activation cancelled''), calls + 1)
      else get_verification_code_loop (after_poll (attempt + 1) d) m (Some d) rs (calls + 1))"
  by (simp add: Let_def)

lemma get_verification_code_loop_bounded:
  "\<forall>r \<in> set rs. is_text r \<Longrightarrow> m - attempt \<le> int (non_waiting rs) \<Longrightarrow>
   \<exists>res c. get_verification_code_loop attempt m data rs calls = Some (res, calls + c)
     \<and> c \<le> length rs \<and> int (non_waiting (take c rs)) \<le> max 0 (m - attempt)"
proof (induction rs arbitrary: attempt data calls)
  case Nil
  then have "\<not> attempt < m" by (simp add: non_waiting_def)
  then show ?case by (simp add: non_waiting_def)
next
  case (Cons r rs)
  show ?case
  proof (cases "attempt < m")
    case False
    then have "get_verification_code_loop attempt m data (r # rs) calls
               = Some (Inr (False, None), calls + 0)"
      by (simp add: get_verification_code_loop_stop)
    moreover have "int (non_waiting (take 0 (r # rs))) \<le> max 0 (m - attempt)"
      by (simp add: non_waiting_def)
    ultimately show ?thesis by blast
  next
    case True
    from Cons.prems(1) obtain d where r: "r = Text d"
      by (cases r) (auto simp: is_text_def)
    have texts: "\<forall>r \<in> set rs. is_text r" using Cons.prems(1) by simp
    let ?go = "get_verification_code_loop (after_poll (attempt + 1) d) m (Some d) rs (calls + 1)"
    have step: "get_verification_code_loop attempt m data (r # rs) calls =
        (if contains ''STATUS_OK'' d \<and> 2 \<le> length (str_split CHR '':'' d)
         then Some (Inr (True, Some (str_split CHR '':'' d ! 1)), calls + 1)
         else if \<not> contains ''STATUS_OK'' d \<and> \<not> contains ''STATUS_WAIT_CODE'' d
                 \<and> contains ''STATUS_CANCEL'' d
         then Some (Inr (False, Some ''Activation cancelled''), calls + 1)
         else ?go)"
      unfolding r by (rule get_verification_code_loop_Text[OF True])
    have "(\<exists>res. get_verification_code_loop attempt m data (r # rs) calls
                       = Some (res, calls + 1))
        \<or> get_verification_code_loop attempt m data (r # rs) calls = ?go"
      unfolding step by simp
    then consider
      (ret) res where "get_verification_code_loop attempt m data (r # rs) calls
                       = Some (res, calls + 1)"
      | (go) "get_verification_code_loop attempt m data (r # rs) calls = ?go"
      by blast
    then show ?thesis
    proof cases
      case ret
      have "int (non_waiting (take 1 (r # rs))) \<le> max 0 (m - attempt)"
        using True by (simp add: non_waiting_def)
      with ret show ?thesis by (intro exI[of _ res] exI[of _ 1]) simp
    next
      case go
      show ?thesis
      proof (cases "contains ''STATUS_WAIT_CODE'' d")
        case w: True
        then have ap: "after_poll (attempt + 1) d = attempt" by (simp add: after_poll_def)
        have nw: "non_waiting (r # rs) = non_waiting rs"
          using w by (simp add: non_waiting_def waiting_def r)
        have "m - attempt \<le> int (non_waiting rs)" using Cons.prems(2) nw by simp
        from Cons.IH[OF texts this, of "Some d" "calls + 1"]
        obtain res c where
          h: "get_verification_code_loop attempt m (Some d) rs (calls + 1) = Some (res, calls + 1 + c)"
             "c \<le> length rs" "int (non_waiting (take c rs)) \<le> max 0 (m - attempt)"
          by blast
        have "non_waiting (take (Suc c) (r # rs)) = non_waiting (take c rs)"
          using w by (simp add: non_waiting_def waiting_def r)
        with h go ap show ?thesis
          by (intro exI[of _ res] exI[of _ "Suc c"]) simp
      next
        case nw: False
        then have ap: "after_poll (attempt + 1) d = attempt + 1" by (simp add: after_poll_def)
        have cnt: "non_waiting (r # rs) = Suc (non_waiting rs)"
          using nw by (simp add: non_waiting_def waiting_def r)
        have "m - (attempt + 1) \<le> int (non_waiting rs)" using Cons.prems(2) cnt by simp
        from Cons.IH[OF texts this, of "Some d" "calls + 1"]
        obtain res c where
          h: "get_verification_code_loop (attempt + 1) m (Some d) rs (calls + 1)
              = Some (res, calls + 1 + c)"
             "c \<le> length rs" "int (non_waiting (take c rs)) \<le> max 0 (m - (attempt + 1))"
          by blast
        have "non_waiting (take (Suc c) (r # rs)) = Suc (non_waiting (take c rs))"
          using nw by (simp add: non_waiting_def waiting_def r)
        with h go ap True show ?thesis
          by (intro exI[of _ res] exI[of _ "Suc c"]) simp
      qed
    qed
  qed
qed

lemma get_verification_code_loop_waits:
  "attempt < m \<Longrightarrow>
   get_verification_code_loop attempt m data (replicate n (Text ''STATUS_WAIT_CODE'') @ rs) calls =
   get_verification_code_loop attempt m (if n = 0 then data else Some ''STATUS_WAIT_CODE'') rs
     (calls + n)"
  by (induction n arbitrary: data calls) (simp_all add: after_poll_def)

text \<open>
  The part of the polling that works as meant: with a lease and a positive budget, any
  number of waiting responses followed by \<^verbatim>\<open>STATUS_OK:<code>\<close> returns the code, and
  the waiting responses use up no attempt.
\<close>

lemma get_verification_code_waits_then_code:
  assumes "truthy (current_activation_id st)" and "0 < default_max_attempts m"
    and "CHR '':'' \<notin> set code"
  shows "get_verification_code st m
           (replicate n (Text ''STATUS_WAIT_CODE'') @ Text (''STATUS_OK:'' @ code) # rs) =
         Some (Inr (True, Some code), n + 1)"
proof -
  have "''STATUS_OK:'' @ code = [] @ ''STATUS_OK'' @ (CHR '':'' # code)" by simp
  then have ok: "contains ''STATUS_OK'' (''STATUS_OK:'' @ code)"
    unfolding contains_iff by blast
  have "str_split CHR '':'' (''STATUS_OK'' @ CHR '':'' # code) = ''STATUS_OK'' # str_split CHR '':'' code"
    by (rule str_split_first) simp
  then have parts: "str_split CHR '':'' (''STATUS_OK:'' @ code) = [''STATUS_OK'', code]"
    using assms(3) by (simp add: str_split_no_sep)
  show ?thesis
    using assms(1,2) ok parts
    by (simp add: get_verification_code_def get_verification_code_loop_waits
        get_verification_code_loop_Text del: contains.simps str_split.simps)
qed

lemma get_verification_code_loop_waiting_forever:
  "attempt < m \<Longrightarrow>
   get_verification_code_loop attempt m data (replicate n (Text ''STATUS_WAIT_CODE'')) calls = None"
  by (induction n arbitrary: data calls) (simp_all add: after_poll_def)

text \<open>
  Claim C4 as stated fails: against a provider that answers \<^verbatim>\<open>STATUS_WAIT_CODE\<close> to
  every poll, no finite number of polls makes \<^verbatim>\<open>get_verification_code\<close> return.
\<close>

theorem get_verification_code_waits_forever:
  "\<forall>n. get_verification_code \<lparr>current_activation_id = Some ''42'', current_number = Some ''611234567''\<rparr>
     None (replicate n (Text ''STATUS_WAIT_CODE'')) = None"
  by (simp add: get_verification_code_def truthy_def default_max_attempts_def REQUEST_MAX_TRY_def
      get_verification_code_loop_waiting_forever)

text \<open>
  Claim C4 as amended. When every poll yields a response text and at least
  \<^verbatim>\<open>max_attempts\<close> of the responses do not contain \<^verbatim>\<open>STATUS_WAIT_CODE\<close>, the call
  returns, and among the polls it has made at most \<^verbatim>\<open>max_attempts\<close> drew a response
  without \<^verbatim>\<open>STATUS_WAIT_CODE\<close>: the budget bounds the non-waiting polls, not the
  waiting ones.
\<close>

theorem get_verification_code_bounded_by_non_waiting:
  assumes "\<forall>r \<in> set rs. is_text r"
    and "default_max_attempts m \<le> int (non_waiting rs)"
  shows "\<exists>res calls. get_verification_code st m rs = Some (res, calls)
     \<and> calls \<le> length rs
     \<and> int (non_waiting (take calls rs)) \<le> max 0 (default_max_attempts m)"
proof (cases "truthy (current_activation_id st)")
  case False
  then have "get_verification_code st m rs = Some (Inr (False, Some ''No active phone number''), 0)"
    by (simp add: get_verification_code_def)
  moreover have "int (non_waiting (take 0 rs)) \<le> max 0 (default_max_attempts m)"
    by (simp add: non_waiting_def)
  ultimately show ?thesis by blast
next
  case True
  have "default_max_attempts m - 0 \<le> int (non_waiting rs)" using assms(2) by simp
  from get_verification_code_loop_bounded[OF assms(1) this, of None 0]
  show ?thesis using True by (simp add: get_verification_code_def)
qed

theorem get_verification_code_bounded_by_non_waiting_witness:
  "list_all is_text [Text ''STATUS_WAIT_CODE'', Text ''ERROR_SQL'', Text ''STATUS_WAIT_CODE'',
                  Text ''ERROR_SQL'', Text ''STATUS_OK:998877'']
   \<and> default_max_attempts (Some 2) \<le> int (non_waiting
        [Text ''STATUS_WAIT_CODE'', Text ''ERROR_SQL'', Text ''STATUS_WAIT_CODE'',
         Text ''ERROR_SQL'', Text ''STATUS_OK:998877''])
   \<and> get_verification_code \<lparr>current_activation_id = Some ''42'', current_number = None\<rparr> (Some 2)
        [Text ''STATUS_WAIT_CODE'', Text ''ERROR_SQL'', Text ''STATUS_WAIT_CODE'',
         Text ''ERROR_SQL'', Text ''STATUS_OK:998877''] = Some (Inr (False, None), 4)"
proof -
  let ?rs = "[Text ''STATUS_WAIT_CODE'', Text ''ERROR_SQL'', Text ''STATUS_WAIT_CODE'',
              Text ''ERROR_SQL'', Text ''STATUS_OK:998877'']"
  have h1: "\<forall>r \<in> set ?rs. is_text r" by (simp add: is_text_def)
  have h2: "default_max_attempts (Some 2) \<le> int (non_waiting ?rs)"
    by (simp add: default_max_attempts_def non_waiting_def waiting_def)
  have run: "get_verification_code \<lparr>current_activation_id = Some ''42'', current_number = None\<rparr>
       (Some 2) ?rs = Some (Inr (False, None), 4)"
    by (simp add: get_verification_code_def truthy_def default_max_attempts_def after_poll_def)
  have h1': "list_all is_text ?rs" by (simp add: is_text_def)
  from get_verification_code_bounded_by_non_waiting[OF h1 h2,
         of "\<lparr>current_activation_id = Some ''42'', current_number = None\<rparr>"]
  have "\<exists>res calls.
          get_verification_code \<lparr>current_activation_id = Some ''42'', current_number = None\<rparr>
            (Some 2) ?rs = Some (res, calls) \<and> calls \<le> length ?rs"
    by blast
  with h1' h2 run show ?thesis by blast
qed

section \<open>Detecting the phone challenge\<close>

text \<open>
  A field counts as shown by a page when a driver exists and either the explicit wait
  locates the element in time or the fallback lookup finds it.
\<close>

lemma wait_for_element_found:
  "wait_for_element p sel = Inr () \<longleftrightarrow> driver_ready p \<and> (located p sel \<or> findable p sel)"
  by (simp add: wait_for_element_def)

lemma wait_for_element_missing:
  "(\<exists>e. wait_for_element p sel = Inl e) \<longleftrightarrow>
     \<not> (driver_ready p \<and> (located p sel \<or> findable p sel))"
  by (auto simp: wait_for_element_def)

text \<open>
  Claim C7. On every page, \<^verbatim>\<open>_requires_phone_verification\<close> answers "not required"
  when the page shows the birth-date day field; otherwise "required" when the page
  shows the phone-number field; and when it shows neither it logs the warning and
  answers "not required". The day field is looked for first: a page showing both
  fields gives "not required".
\<close>

theorem requires_phone_verification_cases:
  "requires_phone_verification p =
     (if driver_ready p \<and> (located p ACC_DAY \<or> findable p ACC_DAY) then
        (False, [(INFO, ''Checking if phone verification is required''),
                 (INFO, ''Phone verification not required'')])
      else if driver_ready p \<and> (located p PHONE_NUMBER \<or> findable p PHONE_NUMBER) then
        (True, [(INFO, ''Checking if phone verification is required''),
                (INFO, ''Phone verification is required'')])
      else
        (False, [(INFO, ''Checking if phone verification is required''),
                 (WARNING, ''Could not determine verification requirement'')]))"
  by (simp add: requires_phone_verification_def wait_for_element_def)

section \<open>The username step\<close>

lemma digit_val_digit_char: "d < 10 \<Longrightarrow> digit_val (digit_char d) = d"
proof -
  assume "d < 10"
  then have "d = 0 \<or> d = 1 \<or> d = 2 \<or> d = 3 \<or> d = 4 \<or> d = 5 \<or> d = 6 \<or> d = 7 \<or> d = 8 \<or> d = 9"
    by arith
  then show ?thesis
    by (elim disjE) (simp_all add: digit_val_def digit_char_def)
qed

lemma nat_of_str_snoc: "nat_of_str (s @ [c]) = 10 * nat_of_str s + digit_val c"
  by (simp add: nat_of_str_def)

lemma nat_of_str_str_nat: "nat_of_str (str_nat n) = n"
proof (induction n rule: str_nat.induct)
  case (1 n)
  show ?case
  proof (cases "n < 10")
    case True
    then have "str_nat n = [digit_char n]" by (subst str_nat.simps) simp
    then show ?thesis using True by (simp add: nat_of_str_def digit_val_digit_char)
  next
    case False
    then have "str_nat n = str_nat (n div 10) @ [digit_char (n mod 10)]"
      by (subst str_nat.simps) simp
    then have "nat_of_str (str_nat n) = 10 * nat_of_str (str_nat (n div 10)) + n mod 10"
      by (simp add: nat_of_str_snoc digit_val_digit_char)
    also have "\<dots> = 10 * (n div 10) + n mod 10" using "1.IH"[OF False] by simp
    finally show ?thesis by simp
  qed
qed

lemma str_nat_inj: "str_nat a = str_nat b \<Longrightarrow> a = b"
proof -
  assume "str_nat a = str_nat b"
  then have "nat_of_str (str_nat a) = nat_of_str (str_nat b)" by simp
  then show "a = b" by (simp add: nat_of_str_str_nat)
qed

lemma generate_username_inj:
  "generate_username lower isalnum f l a = generate_username lower isalnum f l b \<Longrightarrow> a = b"
  by (simp add: generate_username_def str_nat_inj)

text \<open>
  Claim C6. Whatever \<^verbatim>\<open>str.lower\<close> and \<^verbatim>\<open>str.isalnum\<close> compute: when the first pass
  through the username step fills the field, clicks next and finds the rejection
  indicator, and the second pass does the same and finds no indicator, the step returns
  the username generated in the second pass; the usernames typed are the first one and
  then this one. The first one is the manual username if there is one, and the second
  is always generated: the retry runs with the manual username cleared. Two generated
  usernames differ as soon as their random numbers do.
\<close>

theorem fill_username_step_returns_second:
  assumes "username_field_ok r1" and "next_button_ok r1" and "warning_shown r1"
    and "username_field_ok r2" and "next_button_ok r2" and "\<not> warning_shown r2"
  shows "fill_username_step lower isalnum ud (r1 # r2 # rs) =
           Some (Inr (generate_username lower isalnum (first_name ud) (last_name ud)
                        (rand_digits r2)),
                 [if manual_username ud \<noteq> [] then manual_username ud
                  else generate_username lower isalnum (first_name ud) (last_name ud)
                         (rand_digits r1),
                  generate_username lower isalnum (first_name ud) (last_name ud)
                    (rand_digits r2)])
       \<and> (manual_username ud = [] \<and> rand_digits r1 \<noteq> rand_digits r2 \<longrightarrow>
            generate_username lower isalnum (first_name ud) (last_name ud) (rand_digits r2)
            \<noteq> generate_username lower isalnum (first_name ud) (last_name ud)
                 (rand_digits r1))"
proof -
  have run: "fill_username_step lower isalnum ud (r1 # r2 # rs) =
           Some (Inr (generate_username lower isalnum (first_name ud) (last_name ud)
                        (rand_digits r2)),
                 [if manual_username ud \<noteq> [] then manual_username ud
                  else generate_username lower isalnum (first_name ud) (last_name ud)
                         (rand_digits r1),
                  generate_username lower isalnum (first_name ud) (last_name ud)
                    (rand_digits r2)])"
    using assms by (simp add: Let_def)
  have "generate_username lower isalnum (first_name ud) (last_name ud) (rand_digits r2)
        \<noteq> generate_username lower isalnum (first_name ud) (last_name ud) (rand_digits r1)"
    if "rand_digits r1 \<noteq> rand_digits r2"
    using that by (auto dest: generate_username_inj)
  with run show ?thesis by blast
qed

theorem fill_username_step_returns_second_witness:
  "fill_username_step ascii_lower ascii_isalnum
     \<lparr>first_name = ''Jane'', last_name = ''Doe'', password = ''Abc123!@'',
      birthday = ''3/14/1990'', manual_username = []\<rparr>
     [\<lparr>rand_digits = 11111, username_field_ok = True, next_button_ok = True,
       warning_shown = True\<rparr>,
      \<lparr>rand_digits = 12345, username_field_ok = True, next_button_ok = True,
       warning_shown = False\<rparr>]
   = Some (Inr ''jane.doe12345'', [''jane.doe11111'', ''jane.doe12345''])
   \<and> ''jane.doe12345'' \<noteq> ''jane.doe11111''"
proof -
  let ?ud = "\<lparr>first_name = ''Jane'', last_name = ''Doe'', password = ''Abc123!@'',
      birthday = ''3/14/1990'', manual_username = []\<rparr>"
  let ?r1 = "\<lparr>rand_digits = 11111, username_field_ok = True, next_button_ok = True,
       warning_shown = True\<rparr>"
  let ?r2 = "\<lparr>rand_digits = 12345, username_field_ok = True, next_button_ok = True,
       warning_shown = False\<rparr>"
  have g1: "generate_username ascii_lower ascii_isalnum ''Jane'' ''Doe'' 11111
            = ''jane.doe11111''"
    by (simp add: generate_username_def ascii_lower_def ascii_isalnum_def digit_char_def
        str_nat.simps)
  have g2: "generate_username ascii_lower ascii_isalnum ''Jane'' ''Doe'' 12345
            = ''jane.doe12345''"
    by (simp add: generate_username_def ascii_lower_def ascii_isalnum_def digit_char_def
        str_nat.simps)
  from fill_username_step_returns_second[of ?r1 ?r2 ascii_lower ascii_isalnum ?ud "[]"]
  show ?thesis by (simp add: g1 g2)
qed

section \<open>The loop over the accounts\<close>

text \<open>The equations that evaluate a run on the example data.\<close>

lemmas example_defs =
  jane_def accepted_round_def day_page_def phone_page_def smooth_script_def phone_script_def
  no_lease_def new_creator_def

lemmas run_defs =
  create_accounts_def process_attempt_def attempt_body_def create_single_account_def
  create_single_account_body_def complete_and_save_def handle_phone_verification_def
  requires_phone_verification_def wait_for_element_def get_phone_number_def
  get_verification_code_def cancel_current_activation_def report_success_def
  default_max_attempts_def REQUEST_MAX_TRY_def truthy_def after_poll_def uniform_def
  generate_username_def ascii_lower_def ascii_isalnum_def digit_char_def str_nat.simps Let_def

lemma uniform_range:
  "0 \<le> u \<Longrightarrow> u \<le> 1 \<Longrightarrow> a \<le> b \<Longrightarrow> a \<le> uniform a b u \<and> uniform a b u \<le> b"
proof -
  assume u: "0 \<le> u" "u \<le> 1" and ab: "a \<le> b"
  have "0 \<le> (b - a) * u" using u ab by simp
  moreover have "(b - a) * u \<le> (b - a) * 1" using u ab by (intro mult_left_mono) simp_all
  ultimately show ?thesis by (simp add: uniform_def)
qed

text \<open>
  Claim C9 as stated fails. In a run of two attempts with the same random draw, the
  first successful and the second failed (the final steps fail), both cooldowns are
  10 seconds: the cooldown after the failed attempt is not longer.
\<close>

theorem failed_attempt_cooldown_not_longer:
  "(case create_accounts 2
      [\<lparr>user_data_result = UserData jane, driver_init_ok = True, script = smooth_script,
        delay_draw = 1 / 2\<rparr>,
       \<lparr>user_data_result = UserData jane, driver_init_ok = True,
        script = smooth_script\<lparr>final_steps_ok := False\<rparr>, delay_draw = 1 / 2\<rparr>]
      new_creator of
      None \<Rightarrow> False
    | Some (n, st) \<Rightarrow>
        n = 1 \<and> failed_accounts st = 1 \<and> cooldowns st = [10, 10]
        \<and> \<not> cooldowns st ! 0 < cooldowns st ! 1)"
  by (simp add: example_defs run_defs)

text \<open>
  Claim C9 as amended. With the draw of \<^verbatim>\<open>random.uniform\<close> in \<open>[0, 1]\<close>: an iteration
  whose user data is missing sleeps not at all; an iteration ended by an exception of
  \<^verbatim>\<open>get_user_data\<close> or \<^verbatim>\<open>initialize_driver\<close> sleeps \<^verbatim>\<open>uniform(10, 30)\<close>; an iteration in
  which \<^verbatim>\<open>_create_single_account\<close> returns, True or False alike, sleeps
  \<^verbatim>\<open>uniform(5, 15)\<close>; and the two delays lie in \<open>[5, 15]\<close> and \<open>[10, 30]\<close>.
\<close>

theorem cooldown_by_outcome:
  assumes "0 \<le> delay_draw a" and "delay_draw a \<le> 1"
  shows "(user_data_result a = UserDataNone \<longrightarrow>
            (\<exists>st'. process_attempt a st = Some st' \<and> cooldowns st' = cooldowns st))
       \<and> (user_data_result a = UserDataRaises
            \<or> (\<exists>ud. user_data_result a = UserData ud) \<and> \<not> driver_init_ok a \<longrightarrow>
            (\<exists>st'. process_attempt a st = Some st'
               \<and> cooldowns st' = cooldowns st @ [uniform 10 30 (delay_draw a)]))
       \<and> (\<forall>ud b pm saved events.
            user_data_result a = UserData ud \<and> driver_init_ok a
            \<and> create_single_account ud (script a) (phone_manager st) (created_accounts st)
                = Some (b, pm, saved, events) \<longrightarrow>
            (\<exists>st'. process_attempt a st = Some st'
               \<and> cooldowns st' = cooldowns st @ [uniform 5 15 (delay_draw a)]))
       \<and> 5 \<le> uniform 5 15 (delay_draw a) \<and> uniform 5 15 (delay_draw a) \<le> 15
       \<and> 10 \<le> uniform 10 30 (delay_draw a) \<and> uniform 10 30 (delay_draw a) \<le> 30"
proof -
  have none: "user_data_result a = UserDataNone \<longrightarrow>
            (\<exists>st'. process_attempt a st = Some st' \<and> cooldowns st' = cooldowns st)"
    by (simp add: process_attempt_def attempt_body_def)
  have raised: "user_data_result a = UserDataRaises
            \<or> (\<exists>ud. user_data_result a = UserData ud) \<and> \<not> driver_init_ok a \<longrightarrow>
            (\<exists>st'. process_attempt a st = Some st'
               \<and> cooldowns st' = cooldowns st @ [uniform 10 30 (delay_draw a)])"
    by (auto simp: process_attempt_def attempt_body_def)
  have ran: "\<forall>ud b pm saved events.
            user_data_result a = UserData ud \<and> driver_init_ok a
            \<and> create_single_account ud (script a) (phone_manager st) (created_accounts st)
                = Some (b, pm, saved, events) \<longrightarrow>
            (\<exists>st'. process_attempt a st = Some st'
               \<and> cooldowns st' = cooldowns st @ [uniform 5 15 (delay_draw a)])"
    by (simp add: process_attempt_def attempt_body_def)
  have r1: "5 \<le> uniform 5 15 (delay_draw a) \<and> uniform 5 15 (delay_draw a) \<le> 15"
    using assms by (intro uniform_range) simp_all
  have r2: "10 \<le> uniform 10 30 (delay_draw a) \<and> uniform 10 30 (delay_draw a) \<le> 30"
    using assms by (intro uniform_range) simp_all
  from none raised ran r1 r2 show ?thesis by simp
qed

theorem cooldown_by_outcome_witness:
  "(0::real) \<le> 1 / 2 \<and> (1::real) / 2 \<le> 1
   \<and> (\<exists>st'. process_attempt
         \<lparr>user_data_result = UserData jane, driver_init_ok = True,
          script = smooth_script\<lparr>final_steps_ok := False\<rparr>, delay_draw = 1 / 2\<rparr> new_creator
         = Some st' \<and> cooldowns st' = [10])
   \<and> (\<exists>st'. process_attempt
         \<lparr>user_data_result = UserDataRaises, driver_init_ok = True,
          script = smooth_script, delay_draw = 1 / 2\<rparr> new_creator
         = Some st' \<and> cooldowns st' = [20])"
proof -
  let ?a = "\<lparr>user_data_result = UserData jane, driver_init_ok = True,
          script = smooth_script\<lparr>final_steps_ok := False\<rparr>, delay_draw = 1 / 2\<rparr>"
  let ?b = "\<lparr>user_data_result = UserDataRaises, driver_init_ok = True,
          script = smooth_script, delay_draw = 1 / 2\<rparr>"
  have ha: "0 \<le> delay_draw ?a" "delay_draw ?a \<le> 1" by simp_all
  have hb: "0 \<le> delay_draw ?b" "delay_draw ?b \<le> 1" by simp_all
  have run: "create_single_account jane (script ?a) (phone_manager new_creator)
               (created_accounts new_creator) = Some (False, no_lease, [], [])"
    by (simp add: example_defs run_defs)
  have ca: "cooldowns new_creator = []" by (simp add: new_creator_def)
  from cooldown_by_outcome[OF ha, of new_creator] run
  have a: "\<exists>st'. process_attempt ?a new_creator = Some st' \<and> cooldowns st' = [10]"
    by (auto simp: ca uniform_def)
  from cooldown_by_outcome[OF hb, of new_creator]
  have b: "\<exists>st'. process_attempt ?b new_creator = Some st' \<and> cooldowns st' = [20]"
    by (simp add: ca uniform_def)
  from a b show ?thesis by simp
qed

text \<open>
  Claim C5 as stated fails. An exception raised by the navigation inside
  \<^verbatim>\<open>_create_single_account\<close> does not reach the handler of the loop: the attempt
  returns False and the cooldown is the ordinary one, here 5 seconds, below every
  cooldown of the handler.
\<close>

theorem inner_exception_ordinary_cooldown:
  "create_single_account_body jane (smooth_script\<lparr>navigation_ok := False\<rparr>) no_lease []
     = Some (Inl WebDriverException, no_lease, [], [])
   \<and> process_attempt
       \<lparr>user_data_result = UserData jane, driver_init_ok = True,
        script = smooth_script\<lparr>navigation_ok := False\<rparr>, delay_draw = 0\<rparr> new_creator
     = Some (new_creator\<lparr>failed_accounts := 1, current_index := 1, cooldowns := [5]\<rparr>)
   \<and> (5::real) < uniform 10 30 0"
  by (simp add: example_defs run_defs)

text \<open>
  Claim C5 as amended. An exception of \<^verbatim>\<open>get_user_data\<close> or \<^verbatim>\<open>initialize_driver\<close> is
  caught by the handler of the loop: one more failure, the index advanced, the driver
  closed, a cooldown \<^verbatim>\<open>uniform(10, 30)\<close>. An exception raised inside
  \<^verbatim>\<open>_create_single_account\<close> is caught there: one more failure, the index advanced,
  the driver closed, the ordinary cooldown \<^verbatim>\<open>uniform(5, 15)\<close>. In both cases the
  iteration ends with a state, and the loop goes on from it with the next attempt.
\<close>

theorem exceptions_end_the_attempt_only:
  "(user_data_result a = UserDataRaises
      \<or> (\<exists>ud. user_data_result a = UserData ud) \<and> \<not> driver_init_ok a \<longrightarrow>
      (\<exists>e. attempt_body a st = Some (Inl e))
      \<and> process_attempt a st =
          Some (st\<lparr>failed_accounts := failed_accounts st + 1,
                   current_index := current_index st + 1,
                   driver := False,
                   cooldowns := cooldowns st @ [uniform 10 30 (delay_draw a)]\<rparr>))
   \<and> (\<forall>ud e pm saved events.
        user_data_result a = UserData ud \<and> driver_init_ok a
        \<and> create_single_account_body ud (script a) (phone_manager st) (created_accounts st)
            = Some (Inl e, pm, saved, events) \<longrightarrow>
        process_attempt a st =
          Some (st\<lparr>failed_accounts := failed_accounts st + 1,
                   current_index := current_index st + 1,
                   driver := False,
                   phone_manager := pm,
                   created_accounts := saved,
                   cooldowns := cooldowns st @ [uniform 5 15 (delay_draw a)]\<rparr>))
   \<and> (\<forall>st'. process_attempt a st = Some st' \<and> current_index st < n \<longrightarrow>
        create_accounts_loop n (a # as) st = create_accounts_loop n as st')"
proof -
  have outer: "user_data_result a = UserDataRaises
      \<or> (\<exists>ud. user_data_result a = UserData ud) \<and> \<not> driver_init_ok a \<longrightarrow>
      (\<exists>e. attempt_body a st = Some (Inl e))
      \<and> process_attempt a st =
          Some (st\<lparr>failed_accounts := failed_accounts st + 1,
                   current_index := current_index st + 1,
                   driver := False,
                   cooldowns := cooldowns st @ [uniform 10 30 (delay_draw a)]\<rparr>)"
    by (auto simp: process_attempt_def attempt_body_def)
  have inner: "\<forall>ud e pm saved events.
        user_data_result a = UserData ud \<and> driver_init_ok a
        \<and> create_single_account_body ud (script a) (phone_manager st) (created_accounts st)
            = Some (Inl e, pm, saved, events) \<longrightarrow>
        process_attempt a st =
          Some (st\<lparr>failed_accounts := failed_accounts st + 1,
                   current_index := current_index st + 1,
                   driver := False,
                   phone_manager := pm,
                   created_accounts := saved,
                   cooldowns := cooldowns st @ [uniform 5 15 (delay_draw a)]\<rparr>)"
    by (simp add: process_attempt_def attempt_body_def create_single_account_def)
  have next_attempt: "\<forall>st'. process_attempt a st = Some st' \<and> current_index st < n \<longrightarrow>
        create_accounts_loop n (a # as) st = create_accounts_loop n as st'"
    by simp
  from outer inner next_attempt show ?thesis by simp
qed

theorem exceptions_end_the_attempt_only_witness:
  "process_attempt
     \<lparr>user_data_result = UserData jane, driver_init_ok = False, script = smooth_script,
      delay_draw = 1 / 2\<rparr> new_creator
     = Some (new_creator\<lparr>failed_accounts := 1, current_index := 1, cooldowns := [20]\<rparr>)
   \<and> process_attempt
       \<lparr>user_data_result = UserData jane, driver_init_ok = True,
        script = smooth_script\<lparr>navigation_ok := False\<rparr>, delay_draw = 1 / 2\<rparr> new_creator
     = Some (new_creator\<lparr>failed_accounts := 1, current_index := 1, cooldowns := [10]\<rparr>)
   \<and> create_accounts_loop 2
       [\<lparr>user_data_result = UserData jane, driver_init_ok = False, script = smooth_script,
         delay_draw = 1 / 2\<rparr>,
        \<lparr>user_data_result = UserData jane, driver_init_ok = True, script = smooth_script,
         delay_draw = 0\<rparr>] new_creator
     = create_accounts_loop 2
       [\<lparr>user_data_result = UserData jane, driver_init_ok = True, script = smooth_script,
         delay_draw = 0\<rparr>]
       (new_creator\<lparr>failed_accounts := 1, current_index := 1, cooldowns := [20]\<rparr>)"
proof -
  let ?a = "\<lparr>user_data_result = UserData jane, driver_init_ok = False, script = smooth_script,
      delay_draw = 1 / 2\<rparr>"
  let ?b = "\<lparr>user_data_result = UserData jane, driver_init_ok = True,
        script = smooth_script\<lparr>navigation_ok := False\<rparr>, delay_draw = 1 / 2\<rparr>"
  let ?c = "\<lparr>user_data_result = UserData jane, driver_init_ok = True, script = smooth_script,
         delay_draw = 0\<rparr>"
  let ?st1 = "new_creator\<lparr>failed_accounts := 1, current_index := 1, cooldowns := [20]\<rparr>"
  have body: "create_single_account_body jane (script ?b) (phone_manager new_creator)
       (created_accounts new_creator) = Some (Inl WebDriverException, no_lease, [], [])"
    by (simp add: example_defs run_defs)
  note a = exceptions_end_the_attempt_only[of ?a new_creator 2 "[?c]"]
  note b = exceptions_end_the_attempt_only[of ?b new_creator 2 "[]"]
  have pa: "process_attempt ?a new_creator = Some ?st1"
    using a by (simp add: new_creator_def uniform_def)
  have pb: "process_attempt ?b new_creator
     = Some (new_creator\<lparr>failed_accounts := 1, current_index := 1, cooldowns := [10]\<rparr>)"
    using b body by (simp add: new_creator_def no_lease_def uniform_def)
  have idx: "current_index new_creator < 2" by (simp add: new_creator_def)
  have loop: "create_accounts_loop 2 [?a, ?c] new_creator = create_accounts_loop 2 [?c] ?st1"
    using a pa idx by blast
  from pa pb loop show ?thesis by blast
qed

section \<open>One attempt and its lease\<close>









text \<open>
  A defect of the code. When an exception leaves \<^verbatim>\<open>_handle_phone_verification\<close> after
  the number was leased (the phone field or the code field cannot be filled, or
  \<^verbatim>\<open>get_verification_code\<close> raises on a failed first poll), the handler of
  \<^verbatim>\<open>_create_single_account\<close> returns False and sends nothing to the provider: the
  lease stands without a disposition and the client keeps activation id 42. The sibling
  path, on which the provider cancels and no code comes, does send the cancel.
\<close>

lemma exception_after_lease_sends_no_cancel:
  "create_single_account jane (phone_script\<lparr>phone_entry_ok := False\<rparr>) no_lease []
     = Some (False,
             \<lparr>current_activation_id = Some ''42'', current_number = Some ''611234567''\<rparr>,
             [], [Leased (Some ''42'')])
   \<and> create_single_account jane (phone_script\<lparr>code_entry_ok := False\<rparr>) no_lease []
     = Some (False,
             \<lparr>current_activation_id = Some ''42'', current_number = Some ''611234567''\<rparr>,
             [], [Leased (Some ''42'')])
   \<and> create_single_account jane (phone_script\<lparr>status_replies := [RequestException]\<rparr>)
       no_lease []
     = Some (False,
             \<lparr>current_activation_id = Some ''42'', current_number = Some ''611234567''\<rparr>,
             [], [Leased (Some ''42'')])
   \<and> create_single_account jane (phone_script\<lparr>status_replies := [Text ''STATUS_CANCEL'']\<rparr>)
       no_lease []
     = Some (False, no_lease, [], [Leased (Some ''42''), CancelSent])"
  by (simp add: example_defs run_defs)








end
